theory Spec2Isabelle
  imports Main "HOL-Library.Word" "HOL-Library.Char_ord" "HOL-Library.List_Lexorder"
begin

section \<open>The Atlantis container monitor (package monitor)\<close>

text \<open>
  A shallow embedding of \<^verbatim>\<open>src/atlantis/monitor/monitor.go\<close>. Go strings are byte
  strings and are modelled as \<^typ>\<open>string\<close>. Everything the program does to the outside
  (printing, running a subprocess, starting a goroutine, channel operations) is recorded,
  in program order, in the trace of the goroutine that does it; the file system is part of
  the state. What the outside answers (the result of a subprocess, the stored inventory,
  the flags) is a parameter.
\<close>

subsection \<open>Library functions of Go used by the monitor\<close>

text \<open>\<^verbatim>\<open>strings.Split(s, sep)\<close> for a separator of one byte, which is how every call
  of the monitor uses it. The result is never empty.\<close>

primrec strings_Split :: "string \<Rightarrow> char \<Rightarrow> string list" where
  "strings_Split [] sep = [[]]"
| "strings_Split (x # xs) sep =
     (if x = sep then [] # strings_Split xs sep
      else (case strings_Split xs sep of
              [] \<Rightarrow> [[x]]
            | y # ys \<Rightarrow> (x # y) # ys))"

text \<open>\<^verbatim>\<open>strings.SplitN(s, sep, n)\<close> for \<open>n \<ge> 0\<close>: at most \<open>n\<close> substrings, the last one
  being the unsplit remainder; \<open>n = 0\<close> gives no substring at all.\<close>

fun strings_SplitN :: "string \<Rightarrow> char \<Rightarrow> nat \<Rightarrow> string list" where
  "strings_SplitN s sep 0 = []"
| "strings_SplitN s sep (Suc 0) = [s]"
| "strings_SplitN s sep (Suc (Suc n)) =
     (case dropWhile (\<lambda>x. x \<noteq> sep) s of
        [] \<Rightarrow> [s]
      | _ # rest \<Rightarrow> takeWhile (\<lambda>x. x \<noteq> sep) s # strings_SplitN rest sep (Suc n))"

text \<open>\<^verbatim>\<open>strings.Join\<close>.\<close>

fun strings_Join :: "string list \<Rightarrow> string \<Rightarrow> string" where
  "strings_Join [] sep = []"
| "strings_Join [a] sep = a"
| "strings_Join (a # b # r) sep = a @ sep @ strings_Join (b # r) sep"

text \<open>\<^verbatim>\<open>unicode.IsSpace\<close> on single bytes: tab, line feed, vertical tab, form feed,
  carriage return and space. (The white space of Unicode beyond ASCII takes several bytes
  in UTF-8 and is not covered.)\<close>

definition isSpace :: "char \<Rightarrow> bool" where
  "isSpace c = (c = CHR 0x09 \<or> c = CHR 0x0A \<or> c = CHR 0x0B \<or> c = CHR 0x0C
                \<or> c = CHR 0x0D \<or> c = CHR '' '')"

definition strings_TrimSpace :: "string \<Rightarrow> string" where
  "strings_TrimSpace s = rev (dropWhile isSpace (rev (dropWhile isSpace s)))"

text \<open>\<^verbatim>\<open>strings.Replace(s, old, new, 1)\<close> for \<open>old\<close> of one byte: the first occurrence
  is replaced.\<close>

definition strings_Replace :: "string \<Rightarrow> char \<Rightarrow> string \<Rightarrow> string" where
  "strings_Replace s old new =
     (case dropWhile (\<lambda>x. x \<noteq> old) s of
        [] \<Rightarrow> s
      | _ # rest \<Rightarrow> takeWhile (\<lambda>x. x \<noteq> old) s @ new @ rest)"

text \<open>The verb \<^verbatim>\<open>%d\<close> of \<^verbatim>\<open>fmt\<close> on an unsigned number.\<close>

fun fmt_d :: "nat \<Rightarrow> string" where
  "fmt_d n = (if n < 10 then [''0123456789'' ! n]
              else fmt_d (n div 10) @ [''0123456789'' ! (n mod 10)])"

declare fmt_d.simps [simp del]

text \<open>\<^verbatim>\<open>path.Clean\<close>, \<^verbatim>\<open>path.Join\<close> of two elements and \<^verbatim>\<open>path.Dir\<close>.\<close>

fun clean_elems :: "string list \<Rightarrow> bool \<Rightarrow> string list \<Rightarrow> string list" where
  "clean_elems [] rooted out = rev out"
| "clean_elems (e # es) rooted out =
     (if e = [] \<or> e = ''.'' then clean_elems es rooted out
      else if e = ''..'' then
        (case out of
           [] \<Rightarrow> clean_elems es rooted (if rooted then [] else [''..''])
         | p # ps \<Rightarrow>
             if p = ''..'' then clean_elems es rooted (''..'' # out)
             else clean_elems es rooted ps)
      else clean_elems es rooted (e # out))"

definition path_Clean :: "string \<Rightarrow> string" where
  "path_Clean p =
     (if p = [] then ''.''
      else
        let rooted = (hd p = CHR ''/'');
            out = strings_Join (clean_elems (strings_Split p CHR ''/'') rooted []) ''/''
        in if rooted then CHR ''/'' # out else if out = [] then ''.'' else out)"

definition path_Join :: "string \<Rightarrow> string \<Rightarrow> string" where
  "path_Join a b =
     (if a \<noteq> [] then path_Clean (a @ ''/'' @ b)
      else if b \<noteq> [] then path_Clean b
      else [])"

definition path_Dir :: "string \<Rightarrow> string" where
  "path_Dir p =
     path_Clean (take (length p - length (takeWhile (\<lambda>x. x \<noteq> CHR ''/'') (rev p))) p)"

text \<open>\<^verbatim>\<open>exec.Command(name, arg...)\<close>: the program to run and its argument vector, whose
  first entry is the program's name.\<close>

record Cmd =
  Path :: string
  Args :: "string list"

definition exec_Command :: "string \<Rightarrow> string list \<Rightarrow> Cmd" where
  "exec_Command name arg = \<lparr>Path = name, Args = name # arg\<rparr>"

subsection \<open>Severities and the service check\<close>

definition OK :: nat where "OK = 0"
definition Warning :: nat where "Warning = 1"
definition Critical :: nat where "Critical = 2"
definition Uknown :: nat where "Uknown = 3"

record ServiceCheck =
  Service :: string
  User :: string
  Identity :: string
  Host :: string
  Port :: "16 word"
  Script :: string

definition silentSshCmd :: "string \<Rightarrow> string \<Rightarrow> string \<Rightarrow> string \<Rightarrow> 16 word \<Rightarrow> Cmd" where
  "silentSshCmd user identity host command port =
     exec_Command ''ssh''
       [''-q'', user @ ''@'' @ host, ''-i'', identity, ''-p'', fmt_d (unat port),
        ''-o'', ''StrictHostKeyChecking=no'', command]"

definition cmd :: "ServiceCheck \<Rightarrow> Cmd" where
  "cmd s = silentSshCmd (User s) (Identity s) (Host s) (Script s) (Port s)"

definition timeOutMsg :: "ServiceCheck \<Rightarrow> string" where
  "timeOutMsg s =
     fmt_d Critical @ '' '' @ Service s @ '' - Timeout occured during check'' @ [CHR 0x0A]"

text \<open>The argument of \<open>errMsg\<close> is the text of the error, \<open>None\<close> for \<^verbatim>\<open>nil\<close>.\<close>

definition errMsg :: "ServiceCheck \<Rightarrow> string option \<Rightarrow> string" where
  "errMsg s err =
     (case err of
        Some e \<Rightarrow> fmt_d Critical @ '' '' @ Service s @ '' - '' @ e @ [CHR 0x0A]
      | None \<Rightarrow> fmt_d Critical @ '' '' @ Service s
                @ '' - Error encountered while monitoring the service'' @ [CHR 0x0A])"

definition validate :: "ServiceCheck \<Rightarrow> string \<Rightarrow> string" where
  "validate s msg =
     (let m = strings_SplitN msg CHR '' '' 4
      in if length m > 1 \<and> m ! 1 = Service s then msg else errMsg s None)"

subsection \<open>Containers (package types)\<close>

text \<open>Of the structures of \<^verbatim>\<open>atlantis/supervisor/rpc/types\<close> the monitor reads the fields
  below. A pointer that may be \<^verbatim>\<open>nil\<close> is an option. A value of type
  \<^verbatim>\<open>interface{}\<close> is a string or something else.\<close>

datatype iface = StringVal string | OtherVal

record AppDep =
  SecurityGroup :: "string list"
  DataMap :: "string \<rightharpoonup> iface"
  EncryptedData :: string

record Manifest =
  Deps :: "string \<rightharpoonup> AppDep option"

record Container =
  ID :: string
  Host_c :: string
  PrimaryPort :: "16 word"
  SSHPort :: "16 word"
  Manifest_c :: "Manifest option"

record ContainerCheck =
  Name :: string
  User_cc :: string
  Identity_cc :: string
  Directory :: string
  Inventory :: string
  container :: Container

subsection \<open>What a goroutine does, and the state it works on\<close>

text \<open>The trace lists the visible steps of one goroutine in program order: a line printed
  on standard output, a subprocess run to its end with \<^verbatim>\<open>Output()\<close>, a goroutine
  started with \<^verbatim>\<open>go\<close> (with the timeout it is given, a \<^verbatim>\<open>time.Duration\<close> in
  nanoseconds), a value sent or received on one of the three channels, and a call of
  \<^verbatim>\<open>os.Remove\<close>.\<close>

datatype action =
    Print string
  | Output Cmd
  | Go_checkWithTimeout ServiceCheck int
  | Go_Run ContainerCheck int
  | Send_done
  | Recv_done
  | Send_results
  | Recv_results
  | Remove string

text \<open>The file system holds directories and regular files, each under its cleaned path.
  The inventory directory is flat: the monitor creates regular files there and nothing
  else, and the descent of \<^verbatim>\<open>filepath.Walk\<close> into directories below its root is
  not modelled.\<close>

record world =
  dirs :: "string list"
  files :: "string list"
  trace :: "action list"

definition emit :: "action \<Rightarrow> world \<Rightarrow> world" where
  "emit a w = w\<lparr>trace := trace w @ [a]\<rparr>"

text \<open>\<^verbatim>\<open>os.Stat\<close> followed by \<^verbatim>\<open>os.IsNotExist\<close>: the only error of \<^verbatim>\<open>Stat\<close> in the
  model is that nothing has the path.\<close>

definition stat_IsNotExist :: "string \<Rightarrow> world \<Rightarrow> bool" where
  "stat_IsNotExist p w = (path_Clean p \<notin> set (files w) \<and> path_Clean p \<notin> set (dirs w))"

text \<open>\<^verbatim>\<open>os.Create\<close>, whose error the monitor drops: the file exists afterwards when its
  directory exists and the path is not a directory.\<close>

definition os_Create :: "string \<Rightarrow> world \<Rightarrow> world" where
  "os_Create p w =
     (let q = path_Clean p
      in if path_Dir q \<in> set (dirs w) \<and> q \<notin> set (dirs w) \<and> q \<notin> set (files w)
         then w\<lparr>files := files w @ [q]\<rparr>
         else w)"

text \<open>\<^verbatim>\<open>os.Remove\<close>: a regular file goes, a directory goes when it is empty. The result
  is the text of the error, if any.\<close>

definition os_Remove :: "string \<Rightarrow> world \<Rightarrow> string option \<times> world" where
  "os_Remove p w =
     (let q = path_Clean p; w' = emit (Remove p) w
      in if q \<in> set (files w) then (None, w'\<lparr>files := removeAll q (files w)\<rparr>)
         else if q \<in> set (dirs w) then
           (if \<exists>f \<in> set (files w @ dirs w). f \<noteq> q \<and> path_Dir f = q
            then (Some (''remove '' @ p @ '': directory not empty''), w')
            else (None, w'\<lparr>dirs := removeAll q (dirs w)\<rparr>))
         else (Some (''remove '' @ p @ '': no such file or directory''), w'))"

text \<open>\<^verbatim>\<open>filepath.Walk\<close> with a walk function that looks at the path only, as the one of
  the monitor does. The root is visited first, under the name the caller gave; then its
  entries in lexical order. An error of the walk function ends the walk. When the root is
  no directory, or is gone after its own visit, the walk function is called (again) with
  the error, which this walk function does not look at.\<close>

fun walk_entries ::
  "(string \<Rightarrow> world \<Rightarrow> string option \<times> world) \<Rightarrow> string list \<Rightarrow> world \<Rightarrow> string option \<times> world"
where
  "walk_entries walkFn [] w = (None, w)"
| "walk_entries walkFn (p # ps) w =
     (case walkFn p w of
        (Some e, w') \<Rightarrow> (Some e, w')
      | (None, w') \<Rightarrow> walk_entries walkFn ps w')"

definition readDir :: "string \<Rightarrow> world \<Rightarrow> string list" where
  "readDir root w = sort (filter (\<lambda>f. path_Dir f = path_Clean root) (files w))"

definition filepath_Walk ::
  "string \<Rightarrow> (string \<Rightarrow> world \<Rightarrow> string option \<times> world) \<Rightarrow> world \<Rightarrow> string option \<times> world"
where
  "filepath_Walk root walkFn w =
     (if path_Clean root \<in> set (dirs w) then
        (case walkFn root w of
           (Some e, w') \<Rightarrow> (Some e, w')
         | (None, w') \<Rightarrow>
             if path_Clean root \<in> set (dirs w') then walk_entries walkFn (readDir root w') w'
             else walkFn root w')
      else walkFn root w)"

text \<open>The configuration, and the options of the command line. \<^verbatim>\<open>uint\<close> has 64 bits.\<close>

record Config =
  ContainerFile :: string
  InventoryDir :: string
  SSHIdentity :: string
  SSHUser :: string
  CheckName :: string
  CheckDir :: string
  TimeoutDuration :: "64 word"

record Opts =
  ContainerFile_o :: string
  SSHIdentity_o :: string
  SSHUser_o :: string
  CheckName_o :: string
  CheckDir_o :: string
  TimeoutDuration_o :: "64 word"
  Config_o :: string

text \<open>The outside: what a subprocess answers to \<^verbatim>\<open>Output()\<close> (the text of its error, or
  its standard output), which may depend on all the goroutine has done before; the variable
  \<^verbatim>\<open>HOME\<close>; what \<^verbatim>\<open>serialize.RetrieveObject\<close> reads from a path (the text of its
  error, or the inventory, a map listed in the order in which \<^verbatim>\<open>range\<close> goes through
  it); the options that \<^verbatim>\<open>flags.Parse\<close> finds on the command line; and what
  \<^verbatim>\<open>toml.DecodeFile\<close> makes of the configuration when it reads a file into it.\<close>

record env =
  run_Output :: "action list \<Rightarrow> Cmd \<Rightarrow> string + string"
  Getenv_HOME :: string
  RetrieveObject :: "string \<Rightarrow> string + (string \<times> Container) list"
  flags_Parse :: Opts
  toml_DecodeFile :: "string \<Rightarrow> Config \<Rightarrow> Config"

subsection \<open>The service check and its timeout\<close>

text \<open>\<open>runCheck\<close> runs the remote command to its end, prints one line and then sends on
  \<open>done\<close>, a channel with room for one value, so the send never blocks. The second argument
  is what \<^verbatim>\<open>Output()\<close> returned.\<close>

definition runCheck :: "ServiceCheck \<Rightarrow> string + string \<Rightarrow> action list" where
  "runCheck s res =
     [Output (cmd s),
      Print (case res of Inl err \<Rightarrow> errMsg s (Some err) | Inr out \<Rightarrow> validate s out),
      Send_done]"

text \<open>\<open>checkWithTimeout\<close> starts \<open>runCheck\<close> and waits in a \<^verbatim>\<open>select\<close> for \<open>done\<close> or for
  the timer. Time is counted in nanoseconds from the call. The remote command returns at
  the instant \<open>finish\<close>; \<^verbatim>\<open>time.After(d)\<close> delivers at the instant \<open>nat d\<close> (at once when
  \<open>d\<close> is not positive). The \<^verbatim>\<open>select\<close> proceeds as soon as one of its cases can; when
  both can at the same instant Go chooses one of them at random, and \<open>pick\<close> is that choice.
  The result lists the steps of both goroutines with their instants. After a timeout the
  abandoned \<open>runCheck\<close> is not cancelled: its steps come later, if the process still runs
  then.\<close>

datatype select_case = case_done | case_timer

definition checkWithTimeout ::
  "ServiceCheck \<Rightarrow> int \<Rightarrow> nat \<Rightarrow> string + string \<Rightarrow> select_case \<Rightarrow> (nat \<times> action) list"
where
  "checkWithTimeout s d finish res pick =
     (let timer = nat d;
          chosen = (if finish < timer then case_done
                    else if timer < finish then case_timer
                    else pick)
      in case chosen of
           case_done \<Rightarrow>
             map (Pair finish) (runCheck s res) @ [(finish, Recv_done), (finish, Send_results)]
         | case_timer \<Rightarrow>
             (if finish \<le> timer then map (Pair finish) (runCheck s res) else [])
             @ [(timer, Print (timeOutMsg s)), (timer, Send_results)]
             @ (if timer < finish then map (Pair finish) (runCheck s res) else []))"

text \<open>The lines printed in a list of steps, and the lines printed before the completion
  signal on \<open>results\<close>.\<close>

fun printed :: "action list \<Rightarrow> string list" where
  "printed [] = []"
| "printed (Print l # as) = l # printed as"
| "printed (a # as) = printed as"

text \<open>The subprocesses run in a list of steps, and the service checks started.\<close>

fun outputs :: "action list \<Rightarrow> Cmd list" where
  "outputs [] = []"
| "outputs (Output c # as) = c # outputs as"
| "outputs (a # as) = outputs as"

fun started :: "action list \<Rightarrow> ServiceCheck list" where
  "started [] = []"
| "started (Go_checkWithTimeout s t # as) = s # started as"
| "started (a # as) = started as"

definition until_signal :: "(nat \<times> action) list \<Rightarrow> (nat \<times> action) list" where
  "until_signal tr = takeWhile (\<lambda>x. snd x \<noteq> Send_results) tr"

subsection \<open>The container check\<close>

datatype crash = NilDereference

text \<open>The contact group of a container (the first lines of \<open>checkAll\<close>).\<close>

definition contact_group :: "ContainerCheck \<Rightarrow> crash + string" where
  "contact_group c =
     (case Manifest_c (container c) of
        None \<Rightarrow> Inl NilDereference
      | Some m \<Rightarrow>
          (case Deps m ''cmk'' of
             None \<Rightarrow> Inr ''atlantis_orphan_apps''
           | Some None \<Rightarrow> Inl NilDereference
           | Some (Some dep) \<Rightarrow>
               (case DataMap dep ''contact_group'' of
                  Some (StringVal grp) \<Rightarrow> Inr grp
                | _ \<Rightarrow> Inr ''atlantis_orphan_apps'')))"

definition serviceCheck :: "ContainerCheck \<Rightarrow> string \<Rightarrow> ServiceCheck" where
  "serviceCheck c script =
     (let command = Directory c @ ''/'' @ script @ '' ''
                    @ fmt_d (unat (PrimaryPort (container c))) @ '' '' @ ID (container c);
          serviceName = strings_Split script CHR ''.'' ! 0 @ ''_'' @ ID (container c)
      in \<lparr>Service = serviceName, User = User_cc c, Identity = Identity_cc c,
          Host = Host_c (container c), Port = SSHPort (container c), Script = command\<rparr>)"

text \<open>The name that \<open>checkAll\<close> derives for a script, and the command it registers the
  service with.\<close>

definition checkAll_serviceName :: "ContainerCheck \<Rightarrow> string \<Rightarrow> string" where
  "checkAll_serviceName c s = strings_Split s CHR ''.'' ! 0 @ ''_'' @ ID (container c)"

definition registration :: "string \<Rightarrow> string \<Rightarrow> Cmd" where
  "registration serviceName grp =
     exec_Command (''/usr/bin/cmk_admin -s '' @ serviceName @ '' -a '' @ grp) []"

text \<open>The marker of the service of a script: the path that \<open>checkAll\<close> calls
  \<open>inventoryPath\<close>.\<close>

definition inventoryPath :: "ContainerCheck \<Rightarrow> string \<Rightarrow> string" where
  "inventoryPath c s = path_Join (Inventory c) (checkAll_serviceName c s)"

text \<open>The first loop of \<open>checkAll\<close>. The flag of the result says that the function returned
  from inside the loop.\<close>

fun checkAll_loop ::
  "ContainerCheck \<Rightarrow> string \<Rightarrow> int \<Rightarrow> env \<Rightarrow> string list \<Rightarrow> world \<Rightarrow> bool \<times> world"
where
  "checkAll_loop c grp t e [] w = (False, w)"
| "checkAll_loop c grp t e (s # ss) w =
     (if stat_IsNotExist (inventoryPath c s) w then
        (case run_Output e (trace w) (registration (checkAll_serviceName c s) grp) of
           Inl err \<Rightarrow>
             (True,
              emit (Print (''Failure to update contact group for service ''
                           @ checkAll_serviceName c s @ ''. Error:'' @ [CHR 0x0A]
                           @ err @ [CHR 0x0A]))
                (emit (Output (registration (checkAll_serviceName c s) grp)) w))
         | Inr out \<Rightarrow>
             checkAll_loop c grp t e ss
               (emit (Go_checkWithTimeout (serviceCheck c s) t)
                  (os_Create (inventoryPath c s)
                     (emit (Output (registration (checkAll_serviceName c s) grp)) w))))
      else checkAll_loop c grp t e ss (emit (Go_checkWithTimeout (serviceCheck c s) t) w))"

definition receive :: "action \<Rightarrow> nat \<Rightarrow> world \<Rightarrow> world" where
  "receive a n w = w\<lparr>trace := trace w @ replicate n a\<rparr>"

definition checkAll :: "ContainerCheck \<Rightarrow> string list \<Rightarrow> int \<Rightarrow> env \<Rightarrow> world \<Rightarrow> crash + world" where
  "checkAll c scripts t e w =
     (case contact_group c of
        Inl x \<Rightarrow> Inl x
      | Inr grp \<Rightarrow>
          (case checkAll_loop c grp t e scripts w of
             (True, w') \<Rightarrow> Inr w'
           | (False, w') \<Rightarrow> Inr (receive Recv_results (length scripts) w')))"

text \<open>\<open>ContainerCheck.Run\<close>. The deferred send on \<open>done\<close> is the last step of every return.\<close>

definition ContainerCheck_Run :: "ContainerCheck \<Rightarrow> int \<Rightarrow> env \<Rightarrow> world \<Rightarrow> crash + world" where
  "ContainerCheck_Run c t e w =
     (let ls = silentSshCmd (User_cc c) (Identity_cc c) (Host_c (container c))
                 (''ls '' @ Directory c) (SSHPort (container c))
      in case run_Output e (trace w) ls of
           Inl err \<Rightarrow>
             Inr (emit Send_done
                   (emit (Print (fmt_d Critical @ '' '' @ Name c
                                 @ '' - Error getting checks for container:'' @ [CHR 0x0A]
                                 @ err @ [CHR 0x0A]))
                     (emit (Output ls) w)))
         | Inr out \<Rightarrow>
             (let w1 = emit (Print (fmt_d OK @ '' '' @ Name c
                                    @ '' - Got checks for container'' @ [CHR 0x0A]))
                         (emit (Output ls) w);
                  scripts = strings_Split (strings_TrimSpace out) (CHR 0x0A)
              in if length scripts = 0 \<or> length (scripts ! 0) = 0 then Inr (emit Send_done w1)
                 else (case checkAll c scripts t e w1 of
                         Inl x \<Rightarrow> Inl x
                       | Inr w2 \<Rightarrow> Inr (emit Send_done w2))))"

subsection \<open>The monitor\<close>

text \<open>The initial value of the variable \<open>config\<close>.\<close>

definition config :: Config where
  "config =
     \<lparr>ContainerFile = ''/etc/atlantis/supervisor/save/containers'',
      InventoryDir = ''/etc/atlantis/supervisor/inventory'',
      SSHIdentity = ''/opt/atlantis/supervisor/master_id_rsa'',
      SSHUser = ''root'',
      CheckName = ''ContainerMonitor'',
      CheckDir = ''/check_mk_checks'',
      TimeoutDuration = 110\<rparr>"

definition overlayConfig :: "env \<Rightarrow> Config \<Rightarrow> Config" where
  "overlayConfig e cfg0 =
     (let opts = flags_Parse e;
          cfg1 = (if Config_o opts \<noteq> [] then toml_DecodeFile e (Config_o opts) cfg0 else cfg0);
          cfg2 = (if ContainerFile_o opts \<noteq> [] then cfg1\<lparr>ContainerFile := ContainerFile_o opts\<rparr>
                  else cfg1);
          cfg3 = (if SSHIdentity_o opts \<noteq> [] then cfg2\<lparr>SSHIdentity := SSHIdentity_o opts\<rparr>
                  else cfg2);
          cfg4 = (if SSHUser_o opts \<noteq> [] then cfg3\<lparr>SSHUser := SSHUser_o opts\<rparr> else cfg3);
          cfg5 = (if CheckDir_o opts \<noteq> [] then cfg4\<lparr>CheckDir := CheckDir_o opts\<rparr> else cfg4);
          cfg6 = (if CheckName_o opts \<noteq> [] then cfg5\<lparr>CheckName := CheckName_o opts\<rparr> else cfg5)
      in if TimeoutDuration_o opts \<noteq> 0 then cfg6\<lparr>TimeoutDuration := TimeoutDuration_o opts\<rparr>
         else cfg6)"

text \<open>The body of the loop over the inventory: the check of one container, started as a
  goroutine with the timeout \<^verbatim>\<open>time.Duration(config.TimeoutDuration)*time.Second\<close>, a
  product of signed 64-bit numbers.\<close>

definition containerCheck :: "Config \<Rightarrow> Container \<Rightarrow> ContainerCheck" where
  "containerCheck cfg c =
     (let c' = (if Host_c c = [] then c\<lparr>Host_c := ''localhost''\<rparr> else c)
      in \<lparr>Name = CheckName cfg @ ''_'' @ ID c', User_cc = SSHUser cfg,
          Identity_cc = SSHIdentity cfg, Directory = CheckDir cfg,
          Inventory = InventoryDir cfg, container = c'\<rparr>)"

definition timeout :: "Config \<Rightarrow> int" where
  "timeout cfg = sint (TimeoutDuration cfg * 1000000000)"

fun spawn_checks :: "Config \<Rightarrow> (string \<times> Container) list \<Rightarrow> world \<Rightarrow> world" where
  "spawn_checks cfg [] w = w"
| "spawn_checks cfg ((k, c) # cs) w =
     spawn_checks cfg cs (emit (Go_Run (containerCheck cfg c) (timeout cfg)) w)"

text \<open>The walk function, and the clean-up of the inventory at the end of \<open>Run\<close>.\<close>

definition walkFn :: "(string \<times> Container) list \<Rightarrow> string \<Rightarrow> world \<Rightarrow> string option \<times> world" where
  "walkFn contMap path w =
     (let split = strings_Split path CHR ''_'';
          cont = split ! (length split - 1)
      in if map_of contMap cont = None then os_Remove path w else (None, w))"

definition InventoryGC :: "Config \<Rightarrow> (string \<times> Container) list \<Rightarrow> world \<Rightarrow> world" where
  "InventoryGC cfg contMap w =
     (case filepath_Walk (InventoryDir cfg) (walkFn contMap) w of
        (Some err, w') \<Rightarrow>
          emit (Print (''Error iterating over inventory to delete obsolete markers. Error:''
                       @ [CHR 0x0A] @ err @ [CHR 0x0A])) w'
      | (None, w') \<Rightarrow> w')"

definition reinventory :: Cmd where
  "reinventory = exec_Command ''/usr/bin/cmk_admin -I'' []"

text \<open>\<open>Run\<close>, from the value \<open>cfg0\<close> of the variable \<open>config\<close> at the call.\<close>

definition Run :: "env \<Rightarrow> Config \<Rightarrow> world \<Rightarrow> world" where
  "Run e cfg0 w =
     (let cfg = overlayConfig e cfg0
      in if stat_IsNotExist (ContainerFile cfg) w then
           emit (Print (fmt_d OK @ '' '' @ CheckName cfg @ '' - Directory does not exists ''
                        @ ContainerFile cfg @ [CHR 0x0A])) w
         else
           (case RetrieveObject e (ContainerFile cfg) of
              Inl err \<Rightarrow>
                emit (Print (fmt_d Critical @ '' '' @ CheckName cfg @ '' - Could not retrieve ''
                             @ ContainerFile cfg @ '': '' @ err @ [CHR 0x0A])) w
            | Inr contMap \<Rightarrow>
                (let w1 = emit (Print (fmt_d OK @ '' '' @ CheckName cfg @ '' - Able to open ''
                                       @ ContainerFile cfg @ [CHR 0x0A])) w;
                     cfg' = cfg\<lparr>SSHIdentity :=
                                 strings_Replace (SSHIdentity cfg) CHR ''~'' (Getenv_HOME e)\<rparr>;
                     w2 = spawn_checks cfg' contMap w1;
                     w3 = emit (Output reinventory) w2;
                     w4 = receive Recv_done (length contMap) w3
                 in InventoryGC cfg' contMap w4)))"

subsection \<open>Notions of the specification\<close>

text \<open>The specification speaks of the whitespace-delimited tokens of a line: the maximal
  runs of bytes that are not white space.\<close>

fun whitespace_tokens :: "string \<Rightarrow> string list" where
  "whitespace_tokens [] = []"
| "whitespace_tokens (x # xs) =
     (if isSpace x then whitespace_tokens xs
      else (case xs of
              [] \<Rightarrow> [[x]]
            | y # ys \<Rightarrow>
                if isSpace y then [x] # whitespace_tokens xs
                else (case whitespace_tokens xs of
                        [] \<Rightarrow> [[x]]
                      | t # ts \<Rightarrow> (x # t) # ts)))"

text \<open>A file name without its extension, the extension being what \<^verbatim>\<open>path.Ext\<close> says it
  is: the suffix that begins at the last dot of the name.\<close>

definition without_extension :: "string \<Rightarrow> string" where
  "without_extension s =
     (if CHR ''.'' \<in> set s then rev (tl (dropWhile (\<lambda>x. x \<noteq> CHR ''.'') (rev s))) else s)"

subsection \<open>Notions used in the statements\<close>

text \<open>A marker can be created where its directory exists and the path is not itself a
  directory.\<close>

definition creatable :: "string \<Rightarrow> world \<Rightarrow> bool" where
  "creatable p w = (path_Dir (path_Clean p) \<in> set (dirs w) \<and> path_Clean p \<notin> set (dirs w))"

text \<open>The steps of the clean-up of the inventory: calls of \<^verbatim>\<open>os.Remove\<close>, and the line
  that reports an error of the walk.\<close>

fun cleanup_step :: "action \<Rightarrow> bool" where
  "cleanup_step (Remove p) = True"
| "cleanup_step (Print l) = True"
| "cleanup_step a = False"

subsection \<open>Concrete inputs\<close>

text \<open>A service check and a container with its check, as \<open>Run\<close> builds it from the initial
  configuration; a state with an empty inventory directory; and the options of a command
  line without flags.\<close>

definition example_check :: ServiceCheck where
  "example_check =
     \<lparr>Service = ''cpu_c1'', User = ''root'', Identity = ''/id_rsa'', Host = ''h1'', Port = 22,
      Script = ''/check_mk_checks/cpu.sh 8080 c1''\<rparr>"

definition example_container :: Container where
  "example_container =
     \<lparr>ID = ''c1'', Host_c = ''h1'', PrimaryPort = 8080, SSHPort = 22,
      Manifest_c = Some \<lparr>Deps = Map.empty\<rparr>\<rparr>"

definition example_cc :: ContainerCheck where
  "example_cc =
     \<lparr>Name = ''ContainerMonitor_c1'', User_cc = ''root'',
      Identity_cc = ''/opt/atlantis/supervisor/master_id_rsa'', Directory = ''/check_mk_checks'',
      Inventory = ''/etc/atlantis/supervisor/inventory'', container = example_container\<rparr>"

definition example_world :: world where
  "example_world =
     \<lparr>dirs = [''/etc/atlantis/supervisor/inventory'', ''/etc/atlantis/supervisor/save''],
      files = [''/etc/atlantis/supervisor/save/containers''],
      trace = []\<rparr>"

definition no_flags :: Opts where
  "no_flags =
     \<lparr>ContainerFile_o = [], SSHIdentity_o = [], SSHUser_o = [], CheckName_o = [],
      CheckDir_o = [], TimeoutDuration_o = 0,
      Config_o = ''/etc/atlantis/supervisor/monitor.toml''\<rparr>"

text \<open>An outside where every subprocess succeeds and prints nothing, and one where the
  registration of the service \<^verbatim>\<open>mem_c1\<close> fails.\<close>

definition quiet_env :: env where
  "quiet_env =
     \<lparr>run_Output = (\<lambda>h c. Inr []),
      Getenv_HOME = ''/root'',
      RetrieveObject = (\<lambda>p. Inr [(''c1'', example_container)]),
      flags_Parse = no_flags,
      toml_DecodeFile = (\<lambda>p cfg. cfg)\<rparr>"

definition failing_env :: env where
  "failing_env =
     quiet_env\<lparr>run_Output :=
       (\<lambda>h c. if c = registration ''mem_c1'' ''atlantis_orphan_apps''
              then Inl ''exit status 1'' else Inr [])\<rparr>"

text \<open>A state with two markers in the inventory, one of a container that is gone; an
  outside whose subprocesses print a blank line; and a state without any file.\<close>

definition stale_world :: world where
  "stale_world =
     \<lparr>dirs = [''/etc/atlantis/supervisor/inventory'', ''/etc/atlantis/supervisor/save''],
      files = [''/etc/atlantis/supervisor/save/containers'',
               ''/etc/atlantis/supervisor/inventory/cpu_c1'',
               ''/etc/atlantis/supervisor/inventory/cpu_c9''],
      trace = []\<rparr>"

definition blank_env :: env where
  "blank_env = quiet_env\<lparr>run_Output := (\<lambda>h c. Inr ('' '' @ [CHR 0x0A]))\<rparr>"

definition empty_world :: world where
  "empty_world = \<lparr>dirs = [], files = [], trace = []\<rparr>"

section \<open>Properties\<close>

subsection \<open>Splitting strings\<close>

lemma strings_Split_unfold:
  "strings_Split s sep =
     takeWhile (\<lambda>x. x \<noteq> sep) s #
       (case dropWhile (\<lambda>x. x \<noteq> sep) s of [] \<Rightarrow> [] | _ # rest \<Rightarrow> strings_Split rest sep)"
  by (induction s) (auto split: list.splits)

lemma strings_Split_not_Nil [simp]: "strings_Split s sep \<noteq> []"
  by (subst strings_Split_unfold) simp

lemma strings_Split_hd: "strings_Split s sep ! 0 = takeWhile (\<lambda>x. x \<noteq> sep) s"
  by (subst strings_Split_unfold) simp

lemma takeWhile_all_of_dropWhile_Nil:
  "dropWhile P s = [] \<Longrightarrow> takeWhile P s = s"
  by (metis append_Nil2 takeWhile_dropWhile_id)

lemma strings_SplitN_hd:
  "strings_SplitN s sep (Suc (Suc n)) =
     takeWhile (\<lambda>x. x \<noteq> sep) s # tl (strings_SplitN s sep (Suc (Suc n)))"
  by (auto split: list.splits simp: takeWhile_all_of_dropWhile_Nil)

text \<open>With a limit of three or more, \<open>SplitN\<close> and \<open>Split\<close> agree on whether there is a second
  field and on what it is.\<close>

lemma strings_SplitN_second:
  "(1 < length (strings_SplitN s sep (Suc (Suc (Suc n))))
      \<and> strings_SplitN s sep (Suc (Suc (Suc n))) ! 1 = v) =
   (1 < length (strings_Split s sep) \<and> strings_Split s sep ! 1 = v)"
proof (cases "dropWhile (\<lambda>x. x \<noteq> sep) s")
  case Nil
  have a: "strings_SplitN s sep (Suc (Suc (Suc n))) = [s]"
    unfolding strings_SplitN.simps Nil by simp
  have b: "strings_Split s sep = [takeWhile (\<lambda>x. x \<noteq> sep) s]"
    by (subst strings_Split_unfold, unfold Nil) simp
  show ?thesis unfolding a b by simp
next
  case (Cons a rest)
  obtain r where r: "strings_SplitN rest sep (Suc (Suc n)) = takeWhile (\<lambda>x. x \<noteq> sep) rest # r"
    using strings_SplitN_hd [of rest sep n] by blast
  obtain r' where r': "strings_Split rest sep = takeWhile (\<lambda>x. x \<noteq> sep) rest # r'"
    using strings_Split_unfold [of rest sep] by blast
  have a: "strings_SplitN s sep (Suc (Suc (Suc n)))
             = takeWhile (\<lambda>x. x \<noteq> sep) s # takeWhile (\<lambda>x. x \<noteq> sep) rest # r"
    using Cons r by simp
  have b: "strings_Split s sep
             = takeWhile (\<lambda>x. x \<noteq> sep) s # takeWhile (\<lambda>x. x \<noteq> sep) rest # r'"
    using Cons r' by (subst strings_Split_unfold) simp
  show ?thesis unfolding a b by simp
qed

subsection \<open>The validation of a check's output\<close>

text \<open>
  Claim C2, as amended. The fields of \<open>msg\<close> are its parts between single spaces: two
  spaces in a row enclose an empty field, and a tab or a line feed separates nothing. When
  \<open>msg\<close> has a second field and it is the name of the service, \<open>validate\<close> returns \<open>msg\<close> as
  it is; otherwise it returns the generic line of severity 2 (Critical) that names the
  service, and nothing of \<open>msg\<close> is kept.
\<close>

theorem validate_second_field:
  "validate s msg =
     (if 1 < length (strings_Split msg CHR '' '') \<and> strings_Split msg CHR '' '' ! 1 = Service s
      then msg
      else ''2 '' @ Service s @ '' - Error encountered while monitoring the service''
           @ [CHR 0x0A])"
proof -
  have n: "(4::nat) = Suc (Suc (Suc 1))" by simp
  show ?thesis
    unfolding validate_def Let_def n
    using strings_SplitN_second [of msg "CHR '' ''" 1 "Service s"]
    by (simp add: errMsg_def Critical_def fmt_d.simps)
qed

text \<open>The theorem at a line whose second field is the service, and at one whose second
  field is another name.\<close>

theorem validate_second_field_witness:
  "validate example_check ''0 cpu_c1 - OK'' = ''0 cpu_c1 - OK''
   \<and> validate example_check ''0 mem_c1 - OK''
       = ''2 cpu_c1 - Error encountered while monitoring the service'' @ [CHR 0x0A]"
  using validate_second_field [of example_check "''0 cpu_c1 - OK''"]
        validate_second_field [of example_check "''0 mem_c1 - OK''"]
  by (simp add: example_check_def)

text \<open>Claim C2 as the specification words it fails. In the line below severity and service
  are two spaces apart: the second whitespace-delimited token is the name of the service,
  yet \<open>validate\<close> does not return the line.\<close>

theorem validate_whitespace_counterexample:
  "1 < length (whitespace_tokens ''0  cpu_c1 - OK'')
   \<and> whitespace_tokens ''0  cpu_c1 - OK'' ! 1 = Service example_check
   \<and> validate example_check ''0  cpu_c1 - OK''
       = ''2 cpu_c1 - Error encountered while monitoring the service'' @ [CHR 0x0A]"
  by (simp add: example_check_def validate_def errMsg_def Critical_def fmt_d.simps isSpace_def
      eval_nat_numeral)

subsection \<open>Traces and the state\<close>

lemma trace_emit [simp]: "trace (emit a w) = trace w @ [a]"
  and files_emit [simp]: "files (emit a w) = files w"
  and dirs_emit [simp]: "dirs (emit a w) = dirs w"
  by (simp_all add: emit_def)

lemma stat_emit [simp]: "stat_IsNotExist p (emit a w) = stat_IsNotExist p w"
  by (simp add: stat_IsNotExist_def)

lemma trace_os_Create [simp]: "trace (os_Create p w) = trace w"
  and dirs_os_Create [simp]: "dirs (os_Create p w) = dirs w"
  by (simp_all add: os_Create_def Let_def)

lemma files_os_Create: "set (files w) \<subseteq> set (files (os_Create p w))"
  by (auto simp add: os_Create_def Let_def)

lemma outputs_append [simp]: "outputs (xs @ ys) = outputs xs @ outputs ys"
  by (induction xs rule: outputs.induct) simp_all

lemma started_append [simp]: "started (xs @ ys) = started xs @ started ys"
  by (induction xs rule: started.induct) simp_all

lemma printed_append [simp]: "printed (xs @ ys) = printed xs @ printed ys"
  by (induction xs rule: printed.induct) simp_all

subsection \<open>The name of a service and the command of its check\<close>

text \<open>What the code computes for a script \<open>s\<close>: the name of the service is the part of \<open>s\<close>
  before its first dot (all of \<open>s\<close> when it has no dot), followed by an underscore and the
  identifier of the container; \<open>checkAll\<close> and \<open>serviceCheck\<close> derive the same name; and the
  command run on the remote host, the last argument of \<^verbatim>\<open>ssh\<close>, is the path of the script,
  the primary port and the identifier, in that order.\<close>

lemma serviceCheck_name_and_command:
  "Service (serviceCheck c s) = takeWhile (\<lambda>x. x \<noteq> CHR ''.'') s @ ''_'' @ ID (container c)
   \<and> checkAll_serviceName c s = Service (serviceCheck c s)
   \<and> Script (serviceCheck c s)
       = Directory c @ ''/'' @ s @ '' '' @ fmt_d (unat (PrimaryPort (container c))) @ '' ''
         @ ID (container c)
   \<and> last (Args (cmd (serviceCheck c s))) = Script (serviceCheck c s)"
  by (simp add: serviceCheck_def checkAll_serviceName_def strings_Split_hd cmd_def
      silentSshCmd_def exec_Command_def)

text \<open>
  Claim C9 fails on the code. The comment in \<open>serviceCheck\<close> says that the name of the
  service is obtained by removing the file extension from the script, which is what the
  claim says; but \<^verbatim>\<open>strings.Split(script, ".")[0]\<close> cuts at the first dot. For the script
  \<^verbatim>\<open>cpu.load.sh\<close> of the container \<^verbatim>\<open>c1\<close> the name without the extension is
  \<^verbatim>\<open>cpu.load\<close>, so the service should be \<^verbatim>\<open>cpu.load_c1\<close>; \<open>serviceCheck\<close> and
  \<open>checkAll\<close> both call it \<^verbatim>\<open>cpu_c1\<close>. The command of the check is as the claim says.
\<close>

theorem serviceCheck_cuts_at_first_dot:
  "without_extension ''cpu.load.sh'' @ ''_'' @ ID (container example_cc) = ''cpu.load_c1''
   \<and> Service (serviceCheck example_cc ''cpu.load.sh'') = ''cpu_c1''
   \<and> checkAll_serviceName example_cc ''cpu.load.sh'' = ''cpu_c1''
   \<and> Script (serviceCheck example_cc ''cpu.load.sh'') = ''/check_mk_checks/cpu.load.sh 8080 c1''"
  by (simp add: serviceCheck_def checkAll_serviceName_def example_cc_def example_container_def
      without_extension_def fmt_d.simps)

subsection \<open>Registration of the services of a container\<close>

lemma registration_inj [simp]: "(registration n grp = registration n' grp) = (n = n')"
  by (simp add: registration_def exec_Command_def)

text \<open>What the loop leaves as it is.\<close>

lemma checkAll_loop_frame:
  "checkAll_loop c grp t e ss w = (b, w') \<Longrightarrow>
     dirs w' = dirs w \<and> set (files w) \<subseteq> set (files w') \<and> (\<exists>new. trace w' = trace w @ new)"
proof (induction ss arbitrary: w)
  case Nil
  then show ?case by simp
next
  case (Cons s ss)
  show ?case
  proof (cases "stat_IsNotExist (inventoryPath c s) w")
    case False
    with Cons.prems have "checkAll_loop c grp t e ss (emit (Go_checkWithTimeout (serviceCheck c s) t) w) = (b, w')"
      by simp
    from Cons.IH [OF this] show ?thesis by auto
  next
    case True
    show ?thesis
    proof (cases "run_Output e (trace w) (registration (checkAll_serviceName c s) grp)")
      case (Inl err)
      with True Cons.prems show ?thesis by auto
    next
      case (Inr out)
      with True Cons.prems have
        "checkAll_loop c grp t e ss
           (emit (Go_checkWithTimeout (serviceCheck c s) t)
              (os_Create (inventoryPath c s)
                 (emit (Output (registration (checkAll_serviceName c s) grp)) w))) = (b, w')"
        by simp
      from Cons.IH [OF this] files_os_Create [of "emit (Output (registration (checkAll_serviceName c s) grp)) w" "inventoryPath c s"]
      show ?thesis by auto
    qed
  qed
qed

text \<open>A failed registration ends the loop.\<close>

lemma checkAll_loop_failure:
  assumes "checkAll_loop c grp t e pre w = (False, w1)"
    and "stat_IsNotExist (inventoryPath c s) w1"
    and "run_Output e (trace w1) (registration (checkAll_serviceName c s) grp) = Inl err"
  shows "checkAll_loop c grp t e (pre @ s # post) w =
           (True,
            emit (Print (''Failure to update contact group for service ''
                         @ checkAll_serviceName c s @ ''. Error:'' @ [CHR 0x0A]
                         @ err @ [CHR 0x0A]))
              (emit (Output (registration (checkAll_serviceName c s) grp)) w1))"
  using assms
proof (induction pre arbitrary: w)
  case Nil
  then show ?case by simp
next
  case (Cons p pre)
  then show ?case
    by (auto split: if_splits sum.splits)
qed

text \<open>With every marker in place the loop registers nothing.\<close>

lemma checkAll_loop_markers_present:
  "\<forall>s\<in>set ss. \<not> stat_IsNotExist (inventoryPath c s) w \<Longrightarrow>
   checkAll_loop c grp t e ss w
     = (False, w\<lparr>trace := trace w @ map (\<lambda>s. Go_checkWithTimeout (serviceCheck c s) t) ss\<rparr>)"
proof (induction ss arbitrary: w)
  case Nil
  then show ?case by simp
next
  case (Cons s ss)
  have "\<forall>x\<in>set ss. \<not> stat_IsNotExist (inventoryPath c x) (emit (Go_checkWithTimeout (serviceCheck c s) t) w)"
    using Cons.prems by simp
  from Cons.IH [OF this] Cons.prems show ?case
    by (simp add: emit_def)
qed

lemma creatable_emit [simp]: "creatable p (emit a w) = creatable p w"
  and creatable_os_Create [simp]: "creatable p (os_Create q w) = creatable p w"
  by (simp_all add: creatable_def)

lemma stat_after_Create: "creatable p w \<Longrightarrow> \<not> stat_IsNotExist p (os_Create p w)"
  by (auto simp add: creatable_def stat_IsNotExist_def os_Create_def Let_def)

lemma stat_Create_other:
  "path_Clean p \<noteq> path_Clean q \<Longrightarrow> stat_IsNotExist q (os_Create p w) = stat_IsNotExist q w"
  by (auto simp add: stat_IsNotExist_def os_Create_def Let_def)

lemma stat_Create_mono: "\<not> stat_IsNotExist q w \<Longrightarrow> \<not> stat_IsNotExist q (os_Create p w)"
  by (auto simp add: stat_IsNotExist_def os_Create_def Let_def)

lemma stat_mono:
  "\<not> stat_IsNotExist p w \<Longrightarrow> dirs w' = dirs w \<Longrightarrow> set (files w) \<subseteq> set (files w')
     \<Longrightarrow> \<not> stat_IsNotExist p w'"
  by (auto simp add: stat_IsNotExist_def)

text \<open>When every registration succeeds and every marker can be created, the loop runs to
  its end and leaves every marker in place.\<close>

lemma checkAll_loop_creates_markers:
  assumes "\<forall>h. \<forall>s\<in>set ss. \<exists>out. run_Output e h (registration (checkAll_serviceName c s) grp) = Inr out"
    and "\<forall>s\<in>set ss. creatable (inventoryPath c s) w"
  shows "\<exists>w'. checkAll_loop c grp t e ss w = (False, w')
              \<and> (\<forall>s\<in>set ss. \<not> stat_IsNotExist (inventoryPath c s) w')"
  using assms
proof (induction ss arbitrary: w)
  case Nil
  then show ?case by simp
next
  case (Cons s ss)
  let ?go = "Go_checkWithTimeout (serviceCheck c s) t"
  let ?reg = "registration (checkAll_serviceName c s) grp"
  have env: "\<forall>h. \<forall>s\<in>set ss. \<exists>out. run_Output e h (registration (checkAll_serviceName c s) grp) = Inr out"
    using Cons.prems(1) by simp
  show ?case
  proof (cases "stat_IsNotExist (inventoryPath c s) w")
    case False
    have cr: "\<forall>x\<in>set ss. creatable (inventoryPath c x) (emit ?go w)"
      using Cons.prems(2) by simp
    from Cons.IH [OF env cr] obtain w' where
      w': "checkAll_loop c grp t e ss (emit ?go w) = (False, w')"
        "\<forall>x\<in>set ss. \<not> stat_IsNotExist (inventoryPath c x) w'"
      by blast
    have "\<not> stat_IsNotExist (inventoryPath c s) w'"
      using False checkAll_loop_frame [OF w'(1)] stat_mono [of "inventoryPath c s" "emit ?go w" w']
      by simp
    with w' False show ?thesis by simp
  next
    case True
    obtain out where out: "run_Output e (trace w) ?reg = Inr out"
      using Cons.prems(1) by auto
    let ?w2 = "emit ?go (os_Create (inventoryPath c s) (emit (Output ?reg) w))"
    have cr: "\<forall>x\<in>set ss. creatable (inventoryPath c x) ?w2"
      using Cons.prems(2) by simp
    from Cons.IH [OF env cr] obtain w' where
      w': "checkAll_loop c grp t e ss ?w2 = (False, w')"
        "\<forall>x\<in>set ss. \<not> stat_IsNotExist (inventoryPath c x) w'"
      by blast
    have "\<not> stat_IsNotExist (inventoryPath c s) ?w2"
      using Cons.prems(2) stat_after_Create [of "inventoryPath c s" "emit (Output ?reg) w"] by simp
    then have "\<not> stat_IsNotExist (inventoryPath c s) w'"
      using checkAll_loop_frame [OF w'(1)] stat_mono [of "inventoryPath c s" ?w2 w'] by simp
    with w' True out show ?thesis by simp
  qed
qed

text \<open>How often the loop registers the service of a script \<open>s0\<close>: once if one of its scripts
  is of that service and the marker is not there, else never.\<close>

lemma checkAll_loop_count:
  assumes "checkAll_loop c grp t e ss w = (False, w')"
    and "\<forall>s\<in>set ss. creatable (inventoryPath c s) w"
    and "\<forall>s\<in>set ss. path_Clean (inventoryPath c s) = path_Clean (inventoryPath c s0)
            \<longrightarrow> checkAll_serviceName c s = checkAll_serviceName c s0"
  shows "count_list (outputs (trace w')) (registration (checkAll_serviceName c s0) grp)
         = count_list (outputs (trace w)) (registration (checkAll_serviceName c s0) grp)
           + (if (\<exists>s\<in>set ss. checkAll_serviceName c s = checkAll_serviceName c s0)
                 \<and> stat_IsNotExist (inventoryPath c s0) w then 1 else 0)"
  using assms
proof (induction ss arbitrary: w)
  case Nil
  then show ?case by simp
next
  case (Cons s ss)
  let ?go = "Go_checkWithTimeout (serviceCheck c s) t"
  let ?reg = "registration (checkAll_serviceName c s) grp"
  have inj: "\<forall>x\<in>set ss. path_Clean (inventoryPath c x) = path_Clean (inventoryPath c s0)
            \<longrightarrow> checkAll_serviceName c x = checkAll_serviceName c s0"
    using Cons.prems(3) by simp
  have same: "checkAll_serviceName c s = checkAll_serviceName c s0 \<Longrightarrow> inventoryPath c s = inventoryPath c s0"
    by (simp add: inventoryPath_def)
  show ?case
  proof (cases "stat_IsNotExist (inventoryPath c s) w")
    case False
    have cr: "\<forall>x\<in>set ss. creatable (inventoryPath c x) (emit ?go w)"
      using Cons.prems(2) by simp
    have run: "checkAll_loop c grp t e ss (emit ?go w) = (False, w')"
      using Cons.prems(1) False by simp
    from Cons.IH [OF run cr inj] False same show ?thesis
      by auto
  next
    case True
    let ?w1 = "emit (Output ?reg) w"
    let ?w2 = "emit ?go (os_Create (inventoryPath c s) ?w1)"
    obtain out where out: "run_Output e (trace w) ?reg = Inr out"
      using Cons.prems(1) True by (cases "run_Output e (trace w) ?reg") auto
    have cr: "\<forall>x\<in>set ss. creatable (inventoryPath c x) ?w2"
      using Cons.prems(2) by simp
    have run: "checkAll_loop c grp t e ss ?w2 = (False, w')"
      using Cons.prems(1) True out by simp
    note IH = Cons.IH [OF run cr inj]
    show ?thesis
    proof (cases "checkAll_serviceName c s = checkAll_serviceName c s0")
      case eq: True
      have "\<not> stat_IsNotExist (inventoryPath c s0) ?w2"
        using Cons.prems(2) stat_after_Create [of "inventoryPath c s" ?w1] same [OF eq] by simp
      with IH eq True same [OF eq] show ?thesis by simp
    next
      case neq: False
      have "path_Clean (inventoryPath c s) \<noteq> path_Clean (inventoryPath c s0)"
        using Cons.prems(3) neq by auto
      then have "stat_IsNotExist (inventoryPath c s0) ?w2 = stat_IsNotExist (inventoryPath c s0) w"
        using stat_Create_other [of "inventoryPath c s" "inventoryPath c s0" ?w1] by simp
      with IH neq show ?thesis by simp
    qed
  qed
qed

lemma trace_receive [simp]: "trace (receive a n w) = trace w @ replicate n a"
  and files_receive [simp]: "files (receive a n w) = files w"
  and dirs_receive [simp]: "dirs (receive a n w) = dirs w"
  by (simp_all add: receive_def)

lemma outputs_replicate_Recv [simp]:
  "outputs (replicate n Recv_results) = []" "outputs (replicate n Recv_done) = []"
  by (induction n) simp_all

lemma started_replicate_Recv [simp]: "started (replicate n Recv_results) = []"
  by (induction n) simp_all

lemma outputs_map_Go [simp]: "outputs (map (\<lambda>s. Go_checkWithTimeout (f s) t) ss) = []"
  by (induction ss) simp_all

lemma checkAll_loop_started:
  "checkAll_loop c grp t e ss w = (False, w') \<Longrightarrow>
     started (trace w') = started (trace w) @ map (serviceCheck c) ss"
proof (induction ss arbitrary: w)
  case Nil
  then show ?case by simp
next
  case (Cons s ss)
  show ?case
  proof (cases "stat_IsNotExist (inventoryPath c s) w")
    case False
    with Cons.prems Cons.IH [of "emit (Go_checkWithTimeout (serviceCheck c s) t) w"]
    show ?thesis by simp
  next
    case True
    with Cons.prems obtain out where
      "run_Output e (trace w) (registration (checkAll_serviceName c s) grp) = Inr out"
      by (cases "run_Output e (trace w) (registration (checkAll_serviceName c s) grp)") auto
    with True Cons.prems
      Cons.IH [of "emit (Go_checkWithTimeout (serviceCheck c s) t)
              (os_Create (inventoryPath c s)
                 (emit (Output (registration (checkAll_serviceName c s) grp)) w))"]
    show ?thesis by simp
  qed
qed

lemma checkAll_returns:
  "contact_group c = Inr grp \<Longrightarrow> \<exists>w'. checkAll c scripts t e w = Inr w'"
  by (cases "checkAll_loop c grp t e scripts w") (auto simp add: checkAll_def split: bool.splits)

lemma ContainerCheck_Run_returns:
  assumes "contact_group c = Inr grp"
  shows "\<exists>w'. ContainerCheck_Run c t e w = Inr w' \<and> last (trace w') = Send_done"
proof (cases "run_Output e (trace w)
    (silentSshCmd (User_cc c) (Identity_cc c) (Host_c (container c)) (''ls '' @ Directory c)
       (SSHPort (container c)))")
  case (Inl err)
  then show ?thesis by (simp add: ContainerCheck_Run_def)
next
  case (Inr out)
  let ?w1 = "emit (Print (fmt_d OK @ '' '' @ Name c @ '' - Got checks for container'' @ [CHR 0x0A]))
               (emit (Output (silentSshCmd (User_cc c) (Identity_cc c) (Host_c (container c))
                  (''ls '' @ Directory c) (SSHPort (container c)))) w)"
  obtain w2 where "checkAll c (strings_Split (strings_TrimSpace out) (CHR 0x0A)) t e ?w1 = Inr w2"
    using checkAll_returns [OF assms] by blast
  with Inr show ?thesis by (simp add: ContainerCheck_Run_def Let_def)
qed

text \<open>
  Claim C6. Let the scripts before \<open>s\<close> be processed without a failed registration, leaving
  the state \<open>w1\<close>; let the marker of the service of \<open>s\<close> be missing and the registration
  command of that service fail. Then \<open>checkAll\<close> runs that command, prints one diagnostic
  line and returns: no marker is created for \<open>s\<close>, the service checks started are those of
  the scripts before \<open>s\<close> and no others, and nothing is awaited. The return is an ordinary
  one: \<open>ContainerCheck.Run\<close> still ends with its completion signal, so neither the monitor
  nor the checks of the other containers see anything of the failure.
\<close>

theorem registration_failure_aborts:
  assumes "contact_group c = Inr grp"
    and "checkAll_loop c grp t e pre w = (False, w1)"
    and "stat_IsNotExist (inventoryPath c s) w1"
    and "run_Output e (trace w1) (registration (checkAll_serviceName c s) grp) = Inl err"
  shows "\<exists>w'. checkAll c (pre @ s # post) t e w = Inr w'
          \<and> trace w' = trace w1 @
               [Output (registration (checkAll_serviceName c s) grp),
                Print (''Failure to update contact group for service ''
                       @ checkAll_serviceName c s @ ''. Error:'' @ [CHR 0x0A] @ err @ [CHR 0x0A])]
          \<and> files w' = files w1 \<and> dirs w' = dirs w1
          \<and> stat_IsNotExist (inventoryPath c s) w'
          \<and> started (trace w') = started (trace w) @ map (serviceCheck c) pre
          \<and> (\<forall>w0. \<exists>w''. ContainerCheck_Run c t e w0 = Inr w'' \<and> last (trace w'') = Send_done)"
  using checkAll_loop_failure [OF assms(2,3,4), of post] checkAll_loop_started [OF assms(2)]
    ContainerCheck_Run_returns [OF assms(1)] assms(1,3)
  by (simp add: checkAll_def)

text \<open>
  Claim C5. Let \<open>checkAll\<close> run for a container and a list of scripts, with every
  registration command succeeding and every marker creatable, and let different services
  have different markers. Then a second run for the same container and scripts, from the
  state the first run left (whatever the timeout and the answers of the outside then), runs
  no subprocess at all and leaves the files as they are; and over both runs the service of
  every script is registered once if its marker was missing at the start, and not at all if
  it was there.
\<close>

theorem registration_once:
  assumes grp: "contact_group c = Inr grp"
    and ok: "\<forall>h. \<forall>s\<in>set scripts. \<exists>out.
               run_Output e h (registration (checkAll_serviceName c s) grp) = Inr out"
    and cr: "\<forall>s\<in>set scripts. creatable (inventoryPath c s) w"
    and inj: "\<forall>s\<in>set scripts. \<forall>s'\<in>set scripts.
               path_Clean (inventoryPath c s) = path_Clean (inventoryPath c s')
               \<longrightarrow> checkAll_serviceName c s = checkAll_serviceName c s'"
  shows "\<exists>w1 w2. checkAll c scripts t e w = Inr w1
          \<and> checkAll c scripts t' e' w1 = Inr w2
          \<and> outputs (trace w2) = outputs (trace w1)
          \<and> files w2 = files w1
          \<and> (\<forall>s\<in>set scripts.
                count_list (outputs (trace w2)) (registration (checkAll_serviceName c s) grp)
                = count_list (outputs (trace w)) (registration (checkAll_serviceName c s) grp)
                  + (if stat_IsNotExist (inventoryPath c s) w then 1 else 0))"
proof -
  obtain v where v: "checkAll_loop c grp t e scripts w = (False, v)"
    and present: "\<forall>s\<in>set scripts. \<not> stat_IsNotExist (inventoryPath c s) v"
    using checkAll_loop_creates_markers [OF ok cr] by blast
  let ?w1 = "receive Recv_results (length scripts) v"
  have run1: "checkAll c scripts t e w = Inr ?w1"
    using grp v by (simp add: checkAll_def)
  have present1: "\<forall>s\<in>set scripts. \<not> stat_IsNotExist (inventoryPath c s) ?w1"
    using present by (simp add: stat_IsNotExist_def)
  let ?v2 = "?w1\<lparr>trace := trace ?w1 @ map (\<lambda>s. Go_checkWithTimeout (serviceCheck c s) t') scripts\<rparr>"
  have loop2: "checkAll_loop c grp t' e' scripts ?w1 = (False, ?v2)"
    by (rule checkAll_loop_markers_present [OF present1])
  let ?w2 = "receive Recv_results (length scripts) ?v2"
  have run2: "checkAll c scripts t' e' ?w1 = Inr ?w2"
    using grp loop2 by (simp add: checkAll_def)
  have same: "outputs (trace ?w2) = outputs (trace ?w1)" "files ?w2 = files ?w1"
    by simp_all
  have cnt: "count_list (outputs (trace ?w2)) (registration (checkAll_serviceName c s) grp)
        = count_list (outputs (trace w)) (registration (checkAll_serviceName c s) grp)
          + (if stat_IsNotExist (inventoryPath c s) w then 1 else 0)"
    if s: "s \<in> set scripts" for s
  proof -
    have i: "\<forall>x\<in>set scripts. path_Clean (inventoryPath c x) = path_Clean (inventoryPath c s)
            \<longrightarrow> checkAll_serviceName c x = checkAll_serviceName c s"
      using inj s by blast
    have "\<exists>x\<in>set scripts. checkAll_serviceName c x = checkAll_serviceName c s"
      using s by blast
    with checkAll_loop_count [OF v cr i] show ?thesis by simp
  qed
  from run1 run2 same cnt show ?thesis by blast
qed

subsection \<open>The claims on registration at concrete inputs\<close>

lemma example_group: "contact_group example_cc = Inr ''atlantis_orphan_apps''"
  by (simp add: contact_group_def example_cc_def example_container_def)

lemma example_names:
  "checkAll_serviceName example_cc ''cpu.sh'' = ''cpu_c1''"
  "checkAll_serviceName example_cc ''cpu.py'' = ''cpu_c1''"
  "checkAll_serviceName example_cc ''mem.sh'' = ''mem_c1''"
  "checkAll_serviceName example_cc ''disk.sh'' = ''disk_c1''"
  by (simp_all add: checkAll_serviceName_def example_cc_def example_container_def)

lemma example_inventory: "Inventory example_cc = ''/etc/atlantis/supervisor/inventory''"
  by (simp add: example_cc_def)

lemma example_paths:
  "inventoryPath example_cc ''cpu.sh'' = ''/etc/atlantis/supervisor/inventory/cpu_c1''"
  "inventoryPath example_cc ''cpu.py'' = ''/etc/atlantis/supervisor/inventory/cpu_c1''"
  "inventoryPath example_cc ''mem.sh'' = ''/etc/atlantis/supervisor/inventory/mem_c1''"
  "inventoryPath example_cc ''disk.sh'' = ''/etc/atlantis/supervisor/inventory/disk_c1''"
  by (simp_all add: inventoryPath_def example_names example_inventory path_Join_def
      path_Clean_def)

lemma example_clean:
  "path_Clean ''/etc/atlantis/supervisor/inventory/cpu_c1'' = ''/etc/atlantis/supervisor/inventory/cpu_c1''"
  "path_Clean ''/etc/atlantis/supervisor/inventory/mem_c1'' = ''/etc/atlantis/supervisor/inventory/mem_c1''"
  "path_Clean ''/etc/atlantis/supervisor/inventory/disk_c1'' = ''/etc/atlantis/supervisor/inventory/disk_c1''"
  "path_Clean ''/etc/atlantis/supervisor/inventory'' = ''/etc/atlantis/supervisor/inventory''"
  "path_Clean ''/etc/atlantis/supervisor/save/containers'' = ''/etc/atlantis/supervisor/save/containers''"
  by (simp_all add: path_Clean_def)

lemma example_dir:
  "path_Dir ''/etc/atlantis/supervisor/inventory/cpu_c1'' = ''/etc/atlantis/supervisor/inventory''"
  "path_Dir ''/etc/atlantis/supervisor/inventory/mem_c1'' = ''/etc/atlantis/supervisor/inventory''"
  "path_Dir ''/etc/atlantis/supervisor/inventory/disk_c1'' = ''/etc/atlantis/supervisor/inventory''"
  by (simp_all add: path_Dir_def path_Clean_def)

text \<open>Claim C6 at three scripts, where the registration of the second one fails: the first
  service is registered, marked and checked, the second gives the diagnostic line, and the
  third is not looked at.\<close>

theorem registration_failure_aborts_witness:
  "\<exists>w'. checkAll example_cc [''cpu.sh'', ''mem.sh'', ''disk.sh''] 5000000000 failing_env
            example_world = Inr w'
        \<and> outputs (trace w')
            = [registration ''cpu_c1'' ''atlantis_orphan_apps'',
               registration ''mem_c1'' ''atlantis_orphan_apps'']
        \<and> printed (trace w')
            = [''Failure to update contact group for service mem_c1. Error:'' @ [CHR 0x0A]
               @ ''exit status 1'' @ [CHR 0x0A]]
        \<and> files w' = [''/etc/atlantis/supervisor/save/containers'',
                      ''/etc/atlantis/supervisor/inventory/cpu_c1'']
        \<and> started (trace w') = [serviceCheck example_cc ''cpu.sh'']"
  using registration_failure_aborts
    [of example_cc "''atlantis_orphan_apps''" 5000000000 failing_env "[''cpu.sh'']"
        example_world
        "emit (Go_checkWithTimeout (serviceCheck example_cc ''cpu.sh'') 5000000000)
           (os_Create ''/etc/atlantis/supervisor/inventory/cpu_c1''
              (emit (Output (registration ''cpu_c1'' ''atlantis_orphan_apps'')) example_world))"
        "''mem.sh''" "''exit status 1''" "[''disk.sh'']"]
  apply (simp add: example_group example_names example_paths example_clean example_dir
      stat_IsNotExist_def os_Create_def example_world_def failing_env_def quiet_env_def Let_def)
  apply (elim exE conjE)
  subgoal for w' by (rule exI [of _ w']) simp
  done


text \<open>Claim C5 at three scripts, two of them of the same service. The second run is given
  an outside where a registration would fail; it asks for none.\<close>

theorem registration_once_witness:
  "\<exists>w1 w2. checkAll example_cc [''cpu.sh'', ''mem.sh'', ''cpu.py''] 5000000000 quiet_env
              example_world = Inr w1
          \<and> checkAll example_cc [''cpu.sh'', ''mem.sh'', ''cpu.py''] 5000000000 failing_env w1
              = Inr w2
          \<and> outputs (trace w2) = outputs (trace w1)
          \<and> count_list (outputs (trace w2)) (registration ''cpu_c1'' ''atlantis_orphan_apps'') = 1
          \<and> count_list (outputs (trace w2)) (registration ''mem_c1'' ''atlantis_orphan_apps'') = 1"
proof -
  let ?ss = "[''cpu.sh'', ''mem.sh'', ''cpu.py'']"
  have ok: "\<forall>h. \<forall>s\<in>set ?ss. \<exists>out.
      run_Output quiet_env h (registration (checkAll_serviceName example_cc s)
        ''atlantis_orphan_apps'') = Inr out"
    by (simp add: quiet_env_def)
  have cr: "\<forall>s\<in>set ?ss. creatable (inventoryPath example_cc s) example_world"
    by (simp add: creatable_def example_paths example_clean example_dir example_world_def)
  have inj: "\<forall>s\<in>set ?ss. \<forall>s'\<in>set ?ss.
      path_Clean (inventoryPath example_cc s) = path_Clean (inventoryPath example_cc s')
      \<longrightarrow> checkAll_serviceName example_cc s = checkAll_serviceName example_cc s'"
    by (simp add: example_paths example_clean example_names)
  have absent: "stat_IsNotExist (inventoryPath example_cc ''cpu.sh'') example_world"
    "stat_IsNotExist (inventoryPath example_cc ''mem.sh'') example_world"
    by (simp_all add: stat_IsNotExist_def example_paths example_clean example_world_def)
  from registration_once [OF example_group ok cr inj, of 5000000000 5000000000 failing_env]
  obtain w1 w2 where
    r: "checkAll example_cc ?ss 5000000000 quiet_env example_world = Inr w1"
       "checkAll example_cc ?ss 5000000000 failing_env w1 = Inr w2"
       "outputs (trace w2) = outputs (trace w1)"
    and n: "\<forall>s\<in>set ?ss.
       count_list (outputs (trace w2))
         (registration (checkAll_serviceName example_cc s) ''atlantis_orphan_apps'')
       = count_list (outputs (trace example_world))
           (registration (checkAll_serviceName example_cc s) ''atlantis_orphan_apps'')
         + (if stat_IsNotExist (inventoryPath example_cc s) example_world then 1 else 0)"
    by blast
  have "count_list (outputs (trace w2)) (registration ''cpu_c1'' ''atlantis_orphan_apps'') = 1"
    "count_list (outputs (trace w2)) (registration ''mem_c1'' ''atlantis_orphan_apps'') = 1"
    using n absent by (simp_all add: example_names example_world_def)
  with r show ?thesis by blast
qed

subsection \<open>The run of the monitor\<close>

lemma os_Remove_trace: "trace (snd (os_Remove p w)) = trace w @ [Remove p]"
  by (simp add: os_Remove_def Let_def)

lemma walkFn_trace:
  "\<exists>gc. trace (snd (walkFn m p w)) = trace w @ gc \<and> list_all cleanup_step gc"
  by (simp add: walkFn_def Let_def os_Remove_trace)

lemma walk_entries_trace:
  "\<exists>gc. trace (snd (walk_entries (walkFn m) ps w)) = trace w @ gc \<and> list_all cleanup_step gc"
proof (induction ps arbitrary: w)
  case Nil
  then show ?case by simp
next
  case (Cons p ps)
  obtain r w1 where r: "walkFn m p w = (r, w1)" by (cases "walkFn m p w")
  obtain g1 where g1: "trace w1 = trace w @ g1" "list_all cleanup_step g1"
    using walkFn_trace [of m p w] r by auto
  show ?case
  proof (cases r)
    case (Some e)
    with r g1 show ?thesis by simp
  next
    case None
    obtain g2 where "trace (snd (walk_entries (walkFn m) ps w1)) = trace w1 @ g2"
      "list_all cleanup_step g2"
      using Cons.IH [of w1] by blast
    with None r g1 show ?thesis by simp
  qed
qed

lemma filepath_Walk_trace:
  "\<exists>gc. trace (snd (filepath_Walk root (walkFn m) w)) = trace w @ gc \<and> list_all cleanup_step gc"
proof (cases "path_Clean root \<in> set (dirs w)")
  case False
  then show ?thesis using walkFn_trace [of m root w] by (simp add: filepath_Walk_def)
next
  case True
  obtain r w1 where r: "walkFn m root w = (r, w1)" by (cases "walkFn m root w")
  obtain g1 where g1: "trace w1 = trace w @ g1" "list_all cleanup_step g1"
    using walkFn_trace [of m root w] r by auto
  show ?thesis
  proof (cases r)
    case (Some e)
    with True r g1 show ?thesis by (simp add: filepath_Walk_def)
  next
    case None
    show ?thesis
    proof (cases "path_Clean root \<in> set (dirs w1)")
      case t: True
      obtain g2 where "trace (snd (walk_entries (walkFn m) (readDir root w1) w1)) = trace w1 @ g2"
        "list_all cleanup_step g2"
        using walk_entries_trace [of m "readDir root w1" w1] by blast
      with True None r g1 t show ?thesis by (simp add: filepath_Walk_def)
    next
      case f: False
      obtain g2 where "trace (snd (walkFn m root w1)) = trace w1 @ g2" "list_all cleanup_step g2"
        using walkFn_trace [of m root w1] by blast
      with True None r g1 f show ?thesis by (simp add: filepath_Walk_def)
    qed
  qed
qed

lemma InventoryGC_trace:
  "\<exists>gc. trace (InventoryGC cfg m w) = trace w @ gc \<and> list_all cleanup_step gc"
proof -
  obtain r w1 where r: "filepath_Walk (InventoryDir cfg) (walkFn m) w = (r, w1)"
    by (cases "filepath_Walk (InventoryDir cfg) (walkFn m) w")
  obtain g1 where g1: "trace w1 = trace w @ g1" "list_all cleanup_step g1"
    using filepath_Walk_trace [of "InventoryDir cfg" m w] r by auto
  show ?thesis using r g1 by (cases r) (simp_all add: InventoryGC_def)
qed

lemma spawn_checks_trace:
  "trace (spawn_checks cfg m w)
     = trace w @ map (\<lambda>kc. Go_Run (containerCheck cfg (snd kc)) (timeout cfg)) m"
  by (induction m arbitrary: w) auto

lemma spawn_checks_fs [simp]:
  "files (spawn_checks cfg m w) = files w" "dirs (spawn_checks cfg m w) = dirs w"
  by (induction m arbitrary: w) auto

text \<open>
  Claim C8, as amended. When the inventory is read, \<open>Run\<close> prints its line, starts the
  check of every container, and then runs the re-inventory command at once, before it has
  received any completion signal. Only then does it receive exactly one signal per container,
  and the clean-up of the inventory comes after the last of them.
\<close>

theorem Run_order:
  assumes "\<not> stat_IsNotExist (ContainerFile (overlayConfig e cfg0)) w"
    and "RetrieveObject e (ContainerFile (overlayConfig e cfg0)) = Inr contMap"
    and "cfg = (overlayConfig e cfg0)\<lparr>SSHIdentity :=
                 strings_Replace (SSHIdentity (overlayConfig e cfg0)) CHR ''~'' (Getenv_HOME e)\<rparr>"
  shows "\<exists>gc. trace (Run e cfg0 w)
               = trace w
                 @ [Print (''0 '' @ CheckName cfg @ '' - Able to open '' @ ContainerFile cfg
                           @ [CHR 0x0A])]
                 @ map (\<lambda>kc. Go_Run (containerCheck cfg (snd kc)) (timeout cfg)) contMap
                 @ [Output reinventory]
                 @ replicate (length contMap) Recv_done
                 @ gc
             \<and> list_all cleanup_step gc"
proof -
  let ?w4 = "receive Recv_done (length contMap)
               (emit (Output reinventory)
                  (spawn_checks cfg contMap
                     (emit (Print (fmt_d OK @ '' '' @ CheckName (overlayConfig e cfg0)
                                   @ '' - Able to open '' @ ContainerFile (overlayConfig e cfg0)
                                   @ [CHR 0x0A])) w)))"
  have run: "Run e cfg0 w = InventoryGC cfg contMap ?w4"
    using assms by (simp add: Run_def Let_def)
  obtain gc where "trace (InventoryGC cfg contMap ?w4) = trace ?w4 @ gc" "list_all cleanup_step gc"
    using InventoryGC_trace by blast
  then show ?thesis
    using run assms(3) by (simp add: spawn_checks_trace receive_def OK_def fmt_d.simps)
qed

lemma outputs_cleanup: "list_all cleanup_step gc \<Longrightarrow> outputs gc = []"
  by (induction gc rule: outputs.induct) simp_all

lemma outputs_map_Go_Run [simp]: "outputs (map (\<lambda>kc. Go_Run (f kc) t) m) = []"
  by (induction m) simp_all

lemma Run_unfold:
  assumes "\<not> stat_IsNotExist (ContainerFile (overlayConfig e cfg0)) w"
    and "RetrieveObject e (ContainerFile (overlayConfig e cfg0)) = Inr contMap"
    and "cfg = (overlayConfig e cfg0)\<lparr>SSHIdentity :=
                 strings_Replace (SSHIdentity (overlayConfig e cfg0)) CHR ''~'' (Getenv_HOME e)\<rparr>"
  shows "Run e cfg0 w
           = InventoryGC cfg contMap
               (receive Recv_done (length contMap)
                  (emit (Output reinventory)
                     (spawn_checks cfg contMap
                        (emit (Print (''0 '' @ CheckName cfg @ '' - Able to open ''
                                      @ ContainerFile cfg @ [CHR 0x0A])) w))))"
  using assms by (simp add: Run_def Let_def OK_def fmt_d.simps)

lemma checkAll_loop_outputs:
  "checkAll_loop c grp t e ss w = (b, w') \<Longrightarrow>
     \<exists>regs. outputs (trace w') = outputs (trace w) @ regs
          \<and> set regs \<subseteq> (\<lambda>s. registration (checkAll_serviceName c s) grp) ` set ss"
proof (induction ss arbitrary: w)
  case Nil
  then show ?case by simp
next
  case (Cons s ss)
  let ?go = "Go_checkWithTimeout (serviceCheck c s) t"
  let ?reg = "registration (checkAll_serviceName c s) grp"
  show ?case
  proof (cases "stat_IsNotExist (inventoryPath c s) w")
    case False
    with Cons.prems have "checkAll_loop c grp t e ss (emit ?go w) = (b, w')" by simp
    from Cons.IH [OF this] show ?thesis by auto
  next
    case True
    show ?thesis
    proof (cases "run_Output e (trace w) ?reg")
      case (Inl err)
      with True Cons.prems have "outputs (trace w') = outputs (trace w) @ [?reg]" by auto
      then show ?thesis by simp
    next
      case (Inr out)
      with True Cons.prems have
        "checkAll_loop c grp t e ss (emit ?go (os_Create (inventoryPath c s) (emit (Output ?reg) w)))
           = (b, w')"
        by simp
      from Cons.IH [OF this] obtain regs where
        "outputs (trace w') = outputs (trace w) @ ?reg # regs"
        "set regs \<subseteq> (\<lambda>s. registration (checkAll_serviceName c s) grp) ` set ss"
        by auto
      then have "outputs (trace w') = outputs (trace w) @ (?reg # regs)
          \<and> set (?reg # regs) \<subseteq> (\<lambda>s. registration (checkAll_serviceName c s) grp) ` set (s # ss)"
        by auto
      then show ?thesis by blast
    qed
  qed
qed

text \<open>
  Claim C10. Every subprocess that \<open>checkAll\<close> runs is a registration whose program name is
  the whole line \<^verbatim>\<open>/usr/bin/cmk_admin -s <service> -a <group>\<close>, and the one subprocess
  that \<open>Run\<close> runs has the program name \<^verbatim>\<open>/usr/bin/cmk_admin -I\<close>; in both the argument
  vector holds the program name and nothing else.
\<close>

theorem alerting_commands_one_word:
  "(checkAll_loop c grp t e ss w = (b, w') \<longrightarrow>
      (\<exists>regs. outputs (trace w') = outputs (trace w) @ regs
         \<and> set regs \<subseteq>
             (\<lambda>s. \<lparr>Path = ''/usr/bin/cmk_admin -s '' @ checkAll_serviceName c s @ '' -a '' @ grp,
                    Args = [''/usr/bin/cmk_admin -s '' @ checkAll_serviceName c s @ '' -a ''
                            @ grp]\<rparr>) ` set ss))
   \<and> (\<not> stat_IsNotExist (ContainerFile (overlayConfig e cfg0)) w0
        \<and> RetrieveObject e (ContainerFile (overlayConfig e cfg0)) = Inr contMap \<longrightarrow>
      outputs (trace (Run e cfg0 w0))
        = outputs (trace w0)
          @ [\<lparr>Path = ''/usr/bin/cmk_admin -I'', Args = [''/usr/bin/cmk_admin -I'']\<rparr>])"
proof (intro conjI impI)
  assume "checkAll_loop c grp t e ss w = (b, w')"
  from checkAll_loop_outputs [OF this]
  show "\<exists>regs. outputs (trace w') = outputs (trace w) @ regs
         \<and> set regs \<subseteq>
             (\<lambda>s. \<lparr>Path = ''/usr/bin/cmk_admin -s '' @ checkAll_serviceName c s @ '' -a '' @ grp,
                    Args = [''/usr/bin/cmk_admin -s '' @ checkAll_serviceName c s @ '' -a ''
                            @ grp]\<rparr>) ` set ss"
    by (simp add: registration_def exec_Command_def)
next
  assume a: "\<not> stat_IsNotExist (ContainerFile (overlayConfig e cfg0)) w0
        \<and> RetrieveObject e (ContainerFile (overlayConfig e cfg0)) = Inr contMap"
  define cfg where "cfg = (overlayConfig e cfg0)\<lparr>SSHIdentity :=
                 strings_Replace (SSHIdentity (overlayConfig e cfg0)) CHR ''~'' (Getenv_HOME e)\<rparr>"
  let ?w4 = "receive Recv_done (length contMap)
                  (emit (Output reinventory)
                     (spawn_checks cfg contMap
                        (emit (Print (''0 '' @ CheckName cfg @ '' - Able to open ''
                                      @ ContainerFile cfg @ [CHR 0x0A])) w0)))"
  have run: "Run e cfg0 w0 = InventoryGC cfg contMap ?w4"
    using a Run_unfold [of e cfg0 w0 contMap cfg] cfg_def by blast
  obtain gc where gc: "trace (InventoryGC cfg contMap ?w4) = trace ?w4 @ gc"
    "list_all cleanup_step gc"
    using InventoryGC_trace by blast
  show "outputs (trace (Run e cfg0 w0))
        = outputs (trace w0)
          @ [\<lparr>Path = ''/usr/bin/cmk_admin -I'', Args = [''/usr/bin/cmk_admin -I'']\<rparr>]"
    using run gc outputs_cleanup [OF gc(2)]
    by (simp add: spawn_checks_trace reinventory_def exec_Command_def)
qed

text \<open>
  Claim C7. When nothing has the path of the inventory source, \<open>Run\<close> prints the one line
  \<^verbatim>\<open>0 <checkName> - Directory does not exists <path>\<close> and does nothing else: no
  subprocess, no goroutine, no signal, no change of a file.
\<close>

theorem Run_missing_inventory:
  assumes "stat_IsNotExist (ContainerFile (overlayConfig e cfg0)) w"
  shows "trace (Run e cfg0 w)
           = trace w @ [Print (''0 '' @ CheckName (overlayConfig e cfg0)
                               @ '' - Directory does not exists ''
                               @ ContainerFile (overlayConfig e cfg0) @ [CHR 0x0A])]
         \<and> files (Run e cfg0 w) = files w \<and> dirs (Run e cfg0 w) = dirs w"
  using assms by (simp add: Run_def Let_def OK_def fmt_d.simps)

lemma strings_TrimSpace_blank: "\<forall>ch\<in>set out. isSpace ch \<Longrightarrow> strings_TrimSpace out = []"
proof -
  assume "\<forall>ch\<in>set out. isSpace ch"
  then have d: "dropWhile isSpace out = []" by (induction out) simp_all
  show ?thesis unfolding strings_TrimSpace_def d by simp
qed

text \<open>
  Claim C4, as amended. When the listing succeeds and its output is blank,
  \<open>ContainerCheck.Run\<close> prints exactly one line, the OK line of the container
  \<^verbatim>\<open>0 <name> - Got checks for container\<close>, sends its completion signal and returns:
  no line of a script, no registration, no service check started, no file changed, and no
  error.
\<close>

theorem Run_no_scripts:
  assumes "run_Output e (trace w)
             (silentSshCmd (User_cc c) (Identity_cc c) (Host_c (container c))
                (''ls '' @ Directory c) (SSHPort (container c))) = Inr out"
    and "\<forall>ch\<in>set out. isSpace ch"
  shows "\<exists>w'. ContainerCheck_Run c t e w = Inr w'
          \<and> trace w' = trace w @
               [Output (silentSshCmd (User_cc c) (Identity_cc c) (Host_c (container c))
                          (''ls '' @ Directory c) (SSHPort (container c))),
                Print (''0 '' @ Name c @ '' - Got checks for container'' @ [CHR 0x0A]),
                Send_done]
          \<and> files w' = files w \<and> dirs w' = dirs w"
  using assms strings_TrimSpace_blank [OF assms(2)]
  by (simp add: ContainerCheck_Run_def Let_def OK_def fmt_d.simps)

text \<open>Why the clean-up removes nothing (see claim C3 below): when the inventory directory
  holds anything and what follows the last underscore of its path (the whole path, when it
  has no underscore) is no key of the inventory, the walk ends at the directory itself and
  every file stays.\<close>

lemma InventoryGC_stops_at_root:
  assumes "path_Clean (InventoryDir cfg) \<in> set (dirs w)"
    and "path_Clean (InventoryDir cfg) \<notin> set (files w)"
    and "\<exists>f\<in>set (files w @ dirs w).
           f \<noteq> path_Clean (InventoryDir cfg) \<and> path_Dir f = path_Clean (InventoryDir cfg)"
    and "map_of contMap (last (strings_Split (InventoryDir cfg) CHR ''_'')) = None"
  shows "files (InventoryGC cfg contMap w) = files w \<and> dirs (InventoryGC cfg contMap w) = dirs w"
proof -
  have l: "strings_Split (InventoryDir cfg) CHR ''_''
             ! (length (strings_Split (InventoryDir cfg) CHR ''_'') - 1)
           = last (strings_Split (InventoryDir cfg) CHR ''_'')"
    by (simp add: last_conv_nth)
  have "walkFn contMap (InventoryDir cfg) w
          = (Some (''remove '' @ InventoryDir cfg @ '': directory not empty''),
             emit (Remove (InventoryDir cfg)) w)"
    using assms unfolding walkFn_def Let_def l os_Remove_def by auto
  then show ?thesis
    using assms(1) by (simp add: InventoryGC_def filepath_Walk_def)
qed

subsection \<open>The run of the monitor at concrete inputs\<close>

lemma example_overlay: "overlayConfig quiet_env config = config"
  by (simp add: overlayConfig_def quiet_env_def no_flags_def Let_def)

lemma example_containerCheck: "containerCheck config example_container = example_cc"
  by (simp add: containerCheck_def config_def example_container_def example_cc_def)

lemma example_timeout: "timeout config = 110000000000"
  by (simp add: timeout_def config_def)

lemma example_env:
  "RetrieveObject quiet_env p = Inr [(''c1'', example_container)]"
  "Getenv_HOME quiet_env = ''/root''"
  by (simp_all add: quiet_env_def)

lemma example_identity:
  "config\<lparr>SSHIdentity := strings_Replace (SSHIdentity config) CHR ''~'' ''/root''\<rparr> = config"
  by (simp add: config_def strings_Replace_def)

lemma example_stat:
  "\<not> stat_IsNotExist ''/etc/atlantis/supervisor/save/containers'' stale_world"
  by (simp add: stat_IsNotExist_def stale_world_def example_clean)

lemma example_fields:
  "CheckName config = ''ContainerMonitor''"
  "ContainerFile config = ''/etc/atlantis/supervisor/save/containers''"
  by (simp_all add: config_def)

lemma stale_clean:
  "path_Clean ''/etc/atlantis/supervisor/inventory/cpu_c9''
     = ''/etc/atlantis/supervisor/inventory/cpu_c9''"
  by (simp add: path_Clean_def)

lemma example_run:
  "Run quiet_env config stale_world
     = InventoryGC config [(''c1'', example_container)]
         (stale_world\<lparr>trace :=
            [Print (''0 ContainerMonitor - Able to open /etc/atlantis/supervisor/save/containers''
                    @ [CHR 0x0A]),
             Go_Run example_cc 110000000000, Output reinventory, Recv_done]\<rparr>)"
proof -
  have t: "trace stale_world = []" by (simp add: stale_world_def)
  show ?thesis
    by (simp add: Run_def example_overlay example_env example_identity example_stat
        example_containerCheck example_timeout example_fields OK_def fmt_d.simps emit_def
        receive_def t)
qed

lemma example_gc:
  "InventoryGC config [(''c1'', example_container)] (stale_world\<lparr>trace := tr\<rparr>)
     = stale_world\<lparr>trace := tr @
         [Remove ''/etc/atlantis/supervisor/inventory'',
          Print (''Error iterating over inventory to delete obsolete markers. Error:''
                 @ [CHR 0x0A] @ ''remove /etc/atlantis/supervisor/inventory: directory not empty''
                 @ [CHR 0x0A])]\<rparr>"
  by (simp add: InventoryGC_def filepath_Walk_def walkFn_def os_Remove_def config_def
      stale_world_def example_clean example_dir path_Dir_def path_Clean_def emit_def Let_def)

text \<open>
  Claim C3 fails on the code. The walk visits the inventory directory itself first; the last
  part of its path after an underscore is the whole path, which is no container, so the walk
  function tries to remove the directory. It holds markers, the removal fails, and the error
  ends the walk before any marker is looked at. Below, the container \<^verbatim>\<open>c9\<close> is not in
  the inventory, and after \<open>Run\<close> its marker is still there.
\<close>

theorem Run_keeps_stale_marker:
  "map_of [(''c1'', example_container)] ''c9'' = None
   \<and> \<not> stat_IsNotExist ''/etc/atlantis/supervisor/inventory/cpu_c9''
         (Run quiet_env config stale_world)
   \<and> files (Run quiet_env config stale_world) = files stale_world
   \<and> printed (trace (Run quiet_env config stale_world))
       = [''0 ContainerMonitor - Able to open /etc/atlantis/supervisor/save/containers''
          @ [CHR 0x0A],
          ''Error iterating over inventory to delete obsolete markers. Error:''
          @ [CHR 0x0A] @ ''remove /etc/atlantis/supervisor/inventory: directory not empty''
          @ [CHR 0x0A]]"
  by (simp add: example_run example_gc) (simp add: stale_world_def stat_IsNotExist_def stale_clean)

text \<open>Claim C8 as the specification words it fails: with one container in the inventory the
  re-inventory command is the third step of \<open>Run\<close> and the receipt of the completion signal
  the fourth.\<close>

theorem Run_reinventory_counterexample:
  "take 4 (trace (Run quiet_env config stale_world))
     = [Print (''0 ContainerMonitor - Able to open /etc/atlantis/supervisor/save/containers''
               @ [CHR 0x0A]),
        Go_Run example_cc 110000000000, Output reinventory, Recv_done]"
  by (simp add: example_run example_gc)

text \<open>Claim C8, as amended, at an inventory of one container.\<close>

theorem Run_order_witness:
  "\<exists>gc. trace (Run quiet_env config stale_world)
          = [Print (''0 ContainerMonitor - Able to open /etc/atlantis/supervisor/save/containers''
                    @ [CHR 0x0A]),
             Go_Run example_cc 110000000000, Output reinventory, Recv_done] @ gc
        \<and> list_all cleanup_step gc"
proof -
  have t: "trace stale_world = []" by (simp add: stale_world_def)
  show ?thesis
    using Run_order [of quiet_env config stale_world "[(''c1'', example_container)]" config]
    by (simp add: example_overlay example_env example_identity example_fields example_stat
        example_containerCheck example_timeout t)
qed

text \<open>Claim C10 at one script and at an inventory of one container.\<close>

theorem alerting_commands_one_word_witness:
  "outputs (trace (Run quiet_env config stale_world))
     = [\<lparr>Path = ''/usr/bin/cmk_admin -I'', Args = [''/usr/bin/cmk_admin -I'']\<rparr>]
   \<and> set (outputs (trace (snd (checkAll_loop example_cc ''atlantis_orphan_apps'' 5000000000
                                  quiet_env [''cpu.sh''] example_world))))
       \<subseteq> {\<lparr>Path = ''/usr/bin/cmk_admin -s cpu_c1 -a atlantis_orphan_apps'',
            Args = [''/usr/bin/cmk_admin -s cpu_c1 -a atlantis_orphan_apps'']\<rparr>}"
proof -
  have t: "trace stale_world = []" "trace example_world = []"
    by (simp_all add: stale_world_def example_world_def)
  let ?r = "checkAll_loop example_cc ''atlantis_orphan_apps'' 5000000000 quiet_env [''cpu.sh'']
              example_world"
  show ?thesis
    using alerting_commands_one_word
      [of example_cc "''atlantis_orphan_apps''" 5000000000 quiet_env "[''cpu.sh'']" example_world
          "fst ?r" "snd ?r" config stale_world "[(''c1'', example_container)]"]
    by (auto simp add: example_overlay example_env example_fields example_stat t example_names)
qed

text \<open>Claim C7 in a state without any file.\<close>

theorem Run_missing_inventory_witness:
  "trace (Run quiet_env config empty_world)
     = [Print (''0 ContainerMonitor - Directory does not exists ''
               @ ''/etc/atlantis/supervisor/save/containers'' @ [CHR 0x0A])]
   \<and> files (Run quiet_env config empty_world) = []"
  using Run_missing_inventory [of quiet_env config empty_world]
  by (simp add: example_overlay example_fields stat_IsNotExist_def empty_world_def)

text \<open>Claim C4, as amended, at a listing that prints a space and a line feed.\<close>

theorem Run_no_scripts_witness:
  "\<exists>w'. ContainerCheck_Run example_cc 5000000000 blank_env example_world = Inr w'
        \<and> printed (trace w') = [''0 ContainerMonitor_c1 - Got checks for container'' @ [CHR 0x0A]]
        \<and> started (trace w') = []
        \<and> last (trace w') = Send_done
        \<and> files w' = files example_world"
proof -
  have b: "\<forall>ch\<in>set ('' '' @ [CHR 0x0A]). isSpace ch" by (simp add: isSpace_def)
  have r: "run_Output blank_env (trace example_world)
             (silentSshCmd (User_cc example_cc) (Identity_cc example_cc)
                (Host_c (container example_cc)) (''ls '' @ Directory example_cc)
                (SSHPort (container example_cc))) = Inr ('' '' @ [CHR 0x0A])"
    by (simp add: blank_env_def quiet_env_def)
  have n: "Name example_cc = ''ContainerMonitor_c1''" by (simp add: example_cc_def)
  from Run_no_scripts [OF r b, of 5000000000] obtain w' where
    "ContainerCheck_Run example_cc 5000000000 blank_env example_world = Inr w'"
    "trace w' = trace example_world @
       [Output (silentSshCmd (User_cc example_cc) (Identity_cc example_cc)
                  (Host_c (container example_cc)) (''ls '' @ Directory example_cc)
                  (SSHPort (container example_cc))),
        Print (''0 '' @ Name example_cc @ '' - Got checks for container'' @ [CHR 0x0A]),
        Send_done]"
    "files w' = files example_world"
    by blast
  then show ?thesis by (simp add: n example_world_def)
qed

text \<open>Claim C4 as the specification words it fails: at an empty listing the steps of
  \<open>ContainerCheck.Run\<close> are the listing, one printed line and the completion signal, so one
  status line is emitted, not none.\<close>

theorem Run_no_scripts_counterexample:
  "ContainerCheck_Run example_cc 5000000000 quiet_env example_world
     = Inr (example_world\<lparr>trace :=
         [Output \<lparr>Path = ''ssh'',
                  Args = [''ssh'', ''-q'', ''root@h1'', ''-i'',
                          ''/opt/atlantis/supervisor/master_id_rsa'', ''-p'', ''22'', ''-o'',
                          ''StrictHostKeyChecking=no'', ''ls /check_mk_checks'']\<rparr>,
          Print (''0 ContainerMonitor_c1 - Got checks for container'' @ [CHR 0x0A]),
          Send_done]\<rparr>)"
proof -
  have n: "Name example_cc = ''ContainerMonitor_c1''" by (simp add: example_cc_def)
  have t: "trace example_world = []" by (simp add: example_world_def)
  have q: "run_Output quiet_env h c = Inr []" for h c by (simp add: quiet_env_def)
  show ?thesis
    by (simp add: ContainerCheck_Run_def q t strings_TrimSpace_def emit_def OK_def
        fmt_d.simps silentSshCmd_def exec_Command_def example_cc_def example_container_def)
qed

subsection \<open>The race of a check against its timeout\<close>

lemma strings_SplitN_4:
  "strings_SplitN s sep 4 = strings_SplitN s sep (Suc (Suc (Suc (Suc 0))))"
  by (simp add: eval_nat_numeral)

text \<open>
  Claim C1, as amended. Let the remote command return \<open>d\<close> nanoseconds after the call, with
  \<open>d\<close> positive, and let \<open>t\<close> be the timeout. If \<open>d > t\<close>, the only step before the
  completion signal is the print of the fixed line
  \<^verbatim>\<open>2 <service> - Timeout occured during check\<close>, at the instant the timer delivers, which is
  not before \<open>t\<close>. If \<open>d < t\<close>, the one line printed is the line of the check itself (its
  validated output, or the line of its error), and the steps before the completion signal
  are those of \<open>runCheck\<close> and the receipt from \<open>done\<close>. In every case exactly one
  completion signal is sent on \<open>results\<close>.
\<close>

theorem checkWithTimeout_race:
  assumes "0 < d"
  shows "(t < int d \<longrightarrow>
            until_signal (checkWithTimeout s t d res pick)
              = [(nat t, Print (''2 '' @ Service s @ '' - Timeout occured during check''
                                @ [CHR 0x0A]))]
            \<and> t \<le> int (nat t))
       \<and> (int d < t \<longrightarrow>
            printed (map snd (checkWithTimeout s t d res pick))
              = [case res of Inl err \<Rightarrow> errMsg s (Some err) | Inr out \<Rightarrow> validate s out]
            \<and> until_signal (checkWithTimeout s t d res pick)
                = map (Pair d) (runCheck s res) @ [(d, Recv_done)])
       \<and> count_list (map snd (checkWithTimeout s t d res pick)) Send_results = 1"
proof (intro conjI impI)
  assume "t < int d"
  then have "nat t < d" using assms by linarith
  then show "until_signal (checkWithTimeout s t d res pick)
              = [(nat t, Print (''2 '' @ Service s @ '' - Timeout occured during check''
                                @ [CHR 0x0A]))]"
    by (simp add: checkWithTimeout_def until_signal_def timeOutMsg_def Critical_def fmt_d.simps
        Let_def)
next
  show "t \<le> int (nat t)" by simp
next
  assume "int d < t"
  then have lt: "d < nat t" by linarith
  then show "printed (map snd (checkWithTimeout s t d res pick))
              = [case res of Inl err \<Rightarrow> errMsg s (Some err) | Inr out \<Rightarrow> validate s out]"
    by (simp add: checkWithTimeout_def runCheck_def)
  from lt show "until_signal (checkWithTimeout s t d res pick)
                = map (Pair d) (runCheck s res) @ [(d, Recv_done)]"
    by (simp add: checkWithTimeout_def runCheck_def until_signal_def)
next
  show "count_list (map snd (checkWithTimeout s t d res pick)) Send_results = 1"
    by (cases pick) (simp_all add: checkWithTimeout_def runCheck_def Let_def)
qed

text \<open>Claim C1, as amended, at a check of ten seconds and at one of one second, with a
  timeout of five seconds.\<close>

theorem checkWithTimeout_race_witness:
  "until_signal (checkWithTimeout example_check 5000000000 10000000000
                   (Inr (''0 cpu_c1 - OK'' @ [CHR 0x0A])) case_done)
     = [(5000000000, Print (''2 cpu_c1 - Timeout occured during check'' @ [CHR 0x0A]))]
   \<and> printed (map snd (checkWithTimeout example_check 5000000000 1000000000
                          (Inr (''0 cpu_c1 - OK'' @ [CHR 0x0A])) case_timer))
       = [''0 cpu_c1 - OK'' @ [CHR 0x0A]]"
  using checkWithTimeout_race [of 10000000000 5000000000 example_check
          "Inr (''0 cpu_c1 - OK'' @ [CHR 0x0A])" case_done]
        checkWithTimeout_race [of 1000000000 5000000000 example_check
          "Inr (''0 cpu_c1 - OK'' @ [CHR 0x0A])" case_timer]
  by (simp add: validate_def example_check_def strings_SplitN_4)

text \<open>Claim C1 as the specification words it fails where the check takes exactly as long as
  the timeout: both cases of the \<^verbatim>\<open>select\<close> can proceed, and when the timer is chosen
  the timeout line is printed after the line of the check.\<close>

theorem checkWithTimeout_tie_counterexample:
  "printed (map snd (checkWithTimeout example_check 5000000000 5000000000
                       (Inr (''0 cpu_c1 - OK'' @ [CHR 0x0A])) case_timer))
     = [''0 cpu_c1 - OK'' @ [CHR 0x0A],
        ''2 cpu_c1 - Timeout occured during check'' @ [CHR 0x0A]]"
  by (simp add: checkWithTimeout_def runCheck_def timeOutMsg_def Critical_def fmt_d.simps
      validate_def example_check_def strings_SplitN_4)

end
